theory Spec2Isabelle
  imports Complex_Main "HOL-Library.Sublist" "HOL-Library.AList"
begin

section \<open>Python values used by the plugin\<close>

text \<open>
  Strings are lists of Isabelle's 8-bit characters, read as the code points 0 to 255.
  \<open>isspace\<close>, \<open>strip\<close> and \<open>lower\<close> are Python's \<^verbatim>\<open>str.isspace\<close>,
  \<^verbatim>\<open>str.strip()\<close> and \<^verbatim>\<open>str.lower()\<close> on that range.
\<close>

definition isspace :: "char \<Rightarrow> bool" where
  "isspace c = (of_char c \<in> {9, 10, 11, 12, 13, 28, 29, 30, 31, 32, 133, 160 :: nat})"

definition strip :: "string \<Rightarrow> string" where
  "strip s = rev (dropWhile isspace (rev (dropWhile isspace s)))"

definition lower_char :: "char \<Rightarrow> char" where
  "lower_char c =
     (let n = of_char c :: nat
      in if (65 \<le> n \<and> n \<le> 90) \<or> (192 \<le> n \<and> n \<le> 214) \<or> (216 \<le> n \<and> n \<le> 222)
         then char_of (n + 32) else c)"

definition lower :: "string \<Rightarrow> string" where
  "lower s = map lower_char s"

text \<open>\<open>contains sub s\<close> is Python's \<^verbatim>\<open>sub in s\<close> on strings.\<close>

fun contains :: "string \<Rightarrow> string \<Rightarrow> bool" where
  "contains sub [] = (sub = [])"
| "contains sub (c # cs) = (prefix sub (c # cs) \<or> contains sub cs)"

text \<open>\<^verbatim>\<open>s.removeprefix(p)\<close> and \<^verbatim>\<open>s.replace(a, b)\<close> for one-character \<open>a\<close>, \<open>b\<close>.\<close>

definition removeprefix :: "string \<Rightarrow> string \<Rightarrow> string" where
  "removeprefix p s = (if prefix p s then drop (length p) s else s)"

definition replace_char :: "char \<Rightarrow> char \<Rightarrow> string \<Rightarrow> string" where
  "replace_char a b s = map (\<lambda>c. if c = a then b else c) s"

text \<open>\<^verbatim>\<open>str(n)\<close> for a natural number, as the f-string of the subtitle prints the index.\<close>

definition digit_char :: "nat \<Rightarrow> char" where
  "digit_char d = char_of (48 + d)"

fun str_nat :: "nat \<Rightarrow> string" where
  "str_nat n = (if n < 10 then [digit_char n] else str_nat (n div 10) @ [digit_char (n mod 10)])"

text \<open>
  The exceptions the code raises or catches. \<open>is_OSError\<close> is the subclass test that
  \<^verbatim>\<open>except OSError\<close> performs (\<^verbatim>\<open>IOError\<close> is an alias of \<^verbatim>\<open>OSError\<close>,
  \<^verbatim>\<open>URLError\<close> and \<^verbatim>\<open>shutil.SameFileError\<close> are subclasses of it).
  \<^verbatim>\<open>FileNotFoundError\<close> carries its message.
\<close>

datatype exn =
    FileNotFoundError string
  | IsADirectoryError
  | PermissionError
  | SameFileError
  | OSError
  | URLError
  | HTTPException
  | ValueError
  | AttributeError
  | TypeError
  | DatabaseError
  | OperationalError

fun is_OSError :: "exn \<Rightarrow> bool" where
  "is_OSError (FileNotFoundError m) = True"
| "is_OSError IsADirectoryError = True"
| "is_OSError PermissionError = True"
| "is_OSError SameFileError = True"
| "is_OSError OSError = True"
| "is_OSError URLError = True"
| "is_OSError e = False"

fun is_FileNotFoundError :: "exn \<Rightarrow> bool" where
  "is_FileNotFoundError (FileNotFoundError m) = True"
| "is_FileNotFoundError e = False"

section \<open>Paths and the file system\<close>

text \<open>
  A \<^verbatim>\<open>pathlib.Path\<close> is its anchor (absolute or relative) and its components.
  \<open>joinpath p q\<close> is \<^verbatim>\<open>Path(p, q)\<close>: an absolute \<open>q\<close> replaces \<open>p\<close>.
  Drives and the case folding of Windows paths are outside the model; \<open>as_posix\<close> also
  stands for \<^verbatim>\<open>str(path)\<close>.
\<close>

datatype path = Path (absolute: bool) (parts: "string list")

definition joinpath :: "path \<Rightarrow> path \<Rightarrow> path" where
  "joinpath p q = (if absolute q then q else Path (absolute p) (parts p @ parts q))"

definition child :: "path \<Rightarrow> string \<Rightarrow> path" where
  "child p name = joinpath p (Path False [name])"

definition parent :: "path \<Rightarrow> path" where
  "parent p = Path (absolute p) (butlast (parts p))"

definition basename :: "path \<Rightarrow> string" where
  "basename p = (if parts p = [] then [] else last (parts p))"

fun join_sep :: "string list \<Rightarrow> string" where
  "join_sep [] = []"
| "join_sep [x] = x"
| "join_sep (x # y # ys) = x @ CHR ''/'' # join_sep (y # ys)"

definition as_posix :: "path \<Rightarrow> string" where
  "as_posix p =
     (if absolute p then CHR ''/'' # join_sep (parts p)
      else if parts p = [] then ''.'' else join_sep (parts p))"

text \<open>
  A row of a history table: url, title (\<open>None\<close> is SQL NULL) and visit time.
  A file holds bytes or an SQLite database; the database is given by the rows each
  SELECT statement yields, in its ORDER BY order, before any LIMIT is applied
  (a statement that is not listed fails: no such table).
\<close>

type_synonym row = "string \<times> string option \<times> int"

datatype content = Blob string | Sqlite "(string \<times> row list) list"

datatype node = File content | Dir

text \<open>
  The file system lists its nodes in the order a directory scan yields them.
  \<open>locked\<close> holds the paths the operating system refuses to create, overwrite or
  delete (read-only, in use, no permission). Paths are compared as written.
\<close>

record filesystem =
  entries :: "(path \<times> node) list"
  locked :: "path list"

definition lookup :: "filesystem \<Rightarrow> path \<Rightarrow> node option" where
  "lookup fs p = map_of (entries fs) p"

definition path_exists :: "filesystem \<Rightarrow> path \<Rightarrow> bool" where
  "path_exists fs p = (lookup fs p \<noteq> None)"

definition is_dir :: "filesystem \<Rightarrow> path \<Rightarrow> bool" where
  "is_dir fs p = (lookup fs p = Some Dir)"

text \<open>\<^verbatim>\<open>open(p, 'wb')\<close> followed by \<^verbatim>\<open>write(data)\<close>.\<close>

definition write_file :: "filesystem \<Rightarrow> path \<Rightarrow> content \<Rightarrow> exn + filesystem" where
  "write_file fs p c =
     (if \<not> is_dir fs (parent p) then Inl (FileNotFoundError (as_posix p))
      else if is_dir fs p then Inl IsADirectoryError
      else if p \<in> set (locked fs) \<or> parent p \<in> set (locked fs) then Inl PermissionError
      else Inr (fs\<lparr>entries := AList.update p (File c) (entries fs)\<rparr>))"

text \<open>\<^verbatim>\<open>Path.unlink()\<close> and \<^verbatim>\<open>os.remove\<close>.\<close>

definition unlink :: "filesystem \<Rightarrow> path \<Rightarrow> exn + filesystem" where
  "unlink fs p =
     (case lookup fs p of
        None \<Rightarrow> Inl (FileNotFoundError (as_posix p))
      | Some Dir \<Rightarrow> Inl IsADirectoryError
      | Some (File c) \<Rightarrow>
          if p \<in> set (locked fs) then Inl PermissionError
          else Inr (fs\<lparr>entries := AList.delete p (entries fs)\<rparr>))"

text \<open>
  \<^verbatim>\<open>fnmatch\<close> on one path component, with the wildcards \<open>*\<close> and \<open>?\<close>
  (character classes do not occur in the patterns of this program).
\<close>

fun fnmatch :: "string \<Rightarrow> string \<Rightarrow> bool" where
  "fnmatch [] s = (s = [])"
| "fnmatch (p # ps) [] = (p = CHR ''*'' \<and> fnmatch ps [])"
| "fnmatch (p # ps) (c # cs) =
     (if p = CHR ''*'' then fnmatch ps (c # cs) \<or> fnmatch (p # ps) cs
      else (p = CHR ''?'' \<or> p = c) \<and> fnmatch ps cs)"

text \<open>
  \<^verbatim>\<open>Path(dir).glob(pat)\<close> for a pattern of one component: the children of \<open>dir\<close>
  (files and directories alike) whose name matches, as full paths, in scan order.
  pathlib lists the directory before it yields, so the result is a list.
\<close>

definition glob :: "filesystem \<Rightarrow> path \<Rightarrow> string \<Rightarrow> path list" where
  "glob fs dir pat =
     (if is_dir fs dir
      then filter (\<lambda>p. parts p \<noteq> [] \<and> parent p = dir \<and> fnmatch pat (last (parts p)))
             (map fst (entries fs))
      else [])"

text \<open>
  \<^verbatim>\<open>shutil.copy(src, dst)\<close>: a directory \<open>dst\<close> receives a file named like \<open>src\<close>.
  The source is opened before the destination is created.
\<close>

definition shutil_copy :: "filesystem \<Rightarrow> path \<Rightarrow> path \<Rightarrow> (exn + path) \<times> filesystem" where
  "shutil_copy fs src dst =
     (let target = (if is_dir fs dst then child dst (basename src) else dst)
      in if path_exists fs src \<and> src = target then (Inl SameFileError, fs)
         else case lookup fs src of
                None \<Rightarrow> (Inl (FileNotFoundError (as_posix src)), fs)
              | Some Dir \<Rightarrow> (Inl IsADirectoryError, fs)
              | Some (File c) \<Rightarrow>
                  (case write_file fs target c of
                     Inl e \<Rightarrow> (Inl e, fs)
                   | Inr fs' \<Rightarrow> (Inr target, fs')))"

section \<open>browsers.py\<close>

datatype browser_kind = Chrome | Firefox | Edge | Brave | Opera | Vivaldi | Arc | Zen

text \<open>An adapter object: its class, its \<^verbatim>\<open>database_path\<close> and, once a copy was made,
  its \<^verbatim>\<open>temp_path\<close> attribute.\<close>

record adapter =
  kind :: browser_kind
  database_path :: path
  temp_path :: "path option"

text \<open>\<^verbatim>\<open>Base.__del__\<close>: removes the temporary copy, ignoring every error of the removal.\<close>

definition adapter_del :: "adapter \<Rightarrow> filesystem \<Rightarrow> filesystem" where
  "adapter_del self fs0 =
     (case temp_path self of
        None \<Rightarrow> fs0
      | Some tp \<Rightarrow> (case unlink fs0 tp of Inl e \<Rightarrow> fs0 | Inr fs1 \<Rightarrow> fs1))"

text \<open>\<^verbatim>\<open>Base._copy_database\<close>; \<open>tmp\<close> is what \<^verbatim>\<open>gettempdir()\<close> returns.\<close>

definition copy_database ::
  "path \<Rightarrow> adapter \<times> filesystem \<Rightarrow> path \<Rightarrow> (exn + path) \<times> adapter \<times> filesystem" where
  "copy_database tmp st db_path =
     (case shutil_copy (snd st) db_path tmp of
        (Inl e, fs1) \<Rightarrow> (Inl e, fst st, fs1)
      | (Inr tp, fs1) \<Rightarrow> (Inr tp, (fst st)\<lparr>temp_path := Some tp\<rparr>, fs1))"

text \<open>
  SQLite's \<^verbatim>\<open>LIMIT n\<close>: a negative \<open>n\<close> means no upper bound; a literal outside
  the 64-bit range is not an integer and the statement fails.
\<close>

definition sqlite_limit :: "int \<Rightarrow> row list \<Rightarrow> row list" where
  "sqlite_limit n rows = (if n < 0 then rows else take (nat n) rows)"

text \<open>\<^verbatim>\<open>connect\<close>, \<^verbatim>\<open>execute(f'{query} LIMIT {limit}')\<close>, \<^verbatim>\<open>fetchall\<close> and \<^verbatim>\<open>close\<close>
  on the file at \<open>db\<close>.\<close>

definition execute_limit :: "filesystem \<Rightarrow> path \<Rightarrow> string \<Rightarrow> int \<Rightarrow> exn + row list" where
  "execute_limit fs0 db query_text limit =
     (case lookup fs0 db of
        Some (File (Sqlite tables)) \<Rightarrow>
          (case map_of tables query_text of
             None \<Rightarrow> Inl OperationalError
           | Some rows \<Rightarrow>
               if - (2 ^ 63) \<le> limit \<and> limit < 2 ^ 63 then Inr (sqlite_limit limit rows)
               else Inl DatabaseError)
      | _ \<Rightarrow> Inl DatabaseError)"

text \<open>\<^verbatim>\<open>Base.query_history\<close>.\<close>

definition query_history ::
  "path \<Rightarrow> adapter \<times> filesystem \<Rightarrow> path \<Rightarrow> string \<Rightarrow> int
     \<Rightarrow> (exn + row list) \<times> adapter \<times> filesystem" where
  "query_history tmp st db_path query_text limit =
     (case copy_database tmp st db_path of
        (Inl e, st1) \<Rightarrow> (Inl e, st1)
      | (Inr tp, st1) \<Rightarrow> (execute_limit (snd st1) tp query_text limit, st1))"

text \<open>
  \<^verbatim>\<open>HistoryItem\<close>. The \<^verbatim>\<open>browser\<close> attribute is an adapter object or, for the
  fallback branch of \<^verbatim>\<open>timestamp\<close>, an object of another class (given by its name).
\<close>

datatype owner = Adapter browser_kind | Foreign string

record history_item =
  browser :: owner
  url :: string
  title :: string
  last_visit_time :: int

definition HistoryItem :: "owner \<Rightarrow> string \<Rightarrow> string option \<Rightarrow> int \<Rightarrow> history_item" where
  "HistoryItem b u t v =
     \<lparr>browser = b, url = u,
      title = (case t of None \<Rightarrow> u | Some s \<Rightarrow> if s = [] \<or> strip s = [] then u else s),
      last_visit_time = v\<rparr>"

definition get_history_items :: "adapter \<Rightarrow> row list \<Rightarrow> history_item list" where
  "get_history_items self results =
     map (\<lambda>(u, t, v). HistoryItem (Adapter (kind self)) u t v) results"

definition chromium_query :: string where
  "chromium_query = ''SELECT url, title, last_visit_time FROM urls ORDER BY last_visit_time DESC''"

definition gecko_query :: string where
  "gecko_query = ''SELECT url, title, visit_date FROM moz_places INNER JOIN moz_historyvisits on moz_historyvisits.place_id = moz_places.id ORDER BY visit_date DESC''"

fun history_query :: "browser_kind \<Rightarrow> string" where
  "history_query Firefox = gecko_query"
| "history_query Zen = gecko_query"
| "history_query k = chromium_query"

text \<open>The \<^verbatim>\<open>history\<close> method of every adapter class.\<close>

definition history ::
  "path \<Rightarrow> adapter \<times> filesystem \<Rightarrow> int
     \<Rightarrow> (exn + history_item list) \<times> adapter \<times> filesystem" where
  "history tmp st limit =
     (case query_history tmp st (database_path (fst st)) (history_query (kind (fst st))) limit of
        (Inl e, st1) \<Rightarrow> (Inl e, st1)
      | (Inr recents, st1) \<Rightarrow> (Inr (get_history_items (fst st) recents), st1))"

text \<open>\<^verbatim>\<open>Firefox.find_database\<close>: the patterns in order, the first result of each glob.\<close>

definition patterns :: "string list" where
  "patterns = [''*.default-release'', ''*Default (release)'', ''*.default'', ''*Default Profile'']"

fun find_database_loop :: "filesystem \<Rightarrow> path \<Rightarrow> string list \<Rightarrow> exn + path" where
  "find_database_loop fs0 base [] =
     Inl (FileNotFoundError (''No Firefox/Zen profile found in '' @ as_posix base))"
| "find_database_loop fs0 base (pattern # rest) =
     (case glob fs0 base pattern of
        [] \<Rightarrow> find_database_loop fs0 base rest
      | release_folder # others \<Rightarrow>
          Inr (joinpath (joinpath base release_folder) (Path False [''places.sqlite''])))"

definition find_database :: "filesystem \<Rightarrow> path \<Rightarrow> exn + path" where
  "find_database fs0 base = find_database_loop fs0 base patterns"

text \<open>
  \<^verbatim>\<open>HistoryItem.timestamp\<close>. The arguments of a call are Python values with their
  type; a float carries the rational it stands for (its rounding plays no part below).
  \<open>datetime_new\<close> is the constructor \<^verbatim>\<open>datetime(year, month, day)\<close>, which takes
  integers only; \<open>fromtimestamp\<close> is \<^verbatim>\<open>datetime.fromtimestamp\<close>, whose result is kept
  symbolic (the local time of that many seconds after the Unix epoch).
\<close>

datatype pyval = PyInt int | PyFloat rat | PyStr string

datatype datetime = Date int int int | LocalTime rat

datatype log_record = Info string | Warning string | Debug string exn | Error string exn

definition days_in_month :: "int \<Rightarrow> int \<Rightarrow> int" where
  "days_in_month y m =
     (if m = 2 then (if y mod 4 = 0 \<and> (y mod 100 \<noteq> 0 \<or> y mod 400 = 0) then 29 else 28)
      else if m \<in> {4, 6, 9, 11} then 30 else 31)"

fun datetime_new :: "pyval \<Rightarrow> pyval \<Rightarrow> pyval \<Rightarrow> exn + datetime" where
  "datetime_new (PyInt y) (PyInt m) (PyInt d) =
     (if 1 \<le> y \<and> y \<le> 9999 \<and> 1 \<le> m \<and> m \<le> 12 \<and> 1 \<le> d \<and> d \<le> days_in_month y m
      then Inr (Date y m d) else Inl ValueError)"
| "datetime_new y m d = Inl TypeError"

definition fromtimestamp :: "rat \<Rightarrow> exn + datetime" where
  "fromtimestamp x = Inr (LocalTime x)"

fun isinstance_chromium :: "owner \<Rightarrow> bool" where
  "isinstance_chromium (Adapter k) = (k \<in> {Chrome, Edge, Brave, Opera, Vivaldi, Arc})"
| "isinstance_chromium (Foreign n) = False"

fun isinstance_firefox :: "owner \<Rightarrow> bool" where
  "isinstance_firefox (Adapter k) = (k \<in> {Firefox, Zen})"
| "isinstance_firefox (Foreign n) = False"

fun type_name :: "owner \<Rightarrow> string" where
  "type_name (Adapter Chrome) = ''Chrome''"
| "type_name (Adapter Firefox) = ''Firefox''"
| "type_name (Adapter Edge) = ''Edge''"
| "type_name (Adapter Brave) = ''Brave''"
| "type_name (Adapter Opera) = ''Opera''"
| "type_name (Adapter Vivaldi) = ''Vivaldi''"
| "type_name (Adapter Arc) = ''Arc''"
| "type_name (Adapter Zen) = ''Zen''"
| "type_name (Foreign n) = n"

definition timestamp :: "history_item \<Rightarrow> (exn + datetime) \<times> log_record list" where
  "timestamp self =
     (if isinstance_chromium (browser self)
      then (datetime_new (PyFloat (of_int (last_visit_time self) / 1000000 - 11644473600))
              (PyStr ''unixepoch'') (PyStr ''localtime''), [])
      else if isinstance_firefox (browser self)
      then (fromtimestamp (of_int (last_visit_time self) / 1000000), [])
      else (fromtimestamp (of_int (last_visit_time self) / 1000000),
            [Warning (''Unknown browser type: '' @ type_name (browser self))]))"

section \<open>favicon.py\<close>

text \<open>
  \<^verbatim>\<open>urllib.parse.urlparse\<close> as in CPython 3.9, the first release with
  \<^verbatim>\<open>str.removeprefix\<close>: the scheme, the network location after \<open>//\<close> with its
  bracket check, and the path without fragment, query and parameters. Only the fields
  that \<^verbatim>\<open>_get_domain\<close> reads are kept.
\<close>

record parse_result =
  scheme :: string
  netloc :: string
  url_path :: string

definition scheme_chars :: string where
  "scheme_chars = ''abcdefghijklmnopqrstuvwxyzABCDEFGHIJKLMNOPQRSTUVWXYZ0123456789+-.''"

definition uses_params :: "string list" where
  "uses_params = [[], ''ftp'', ''hdl'', ''prospero'', ''http'', ''imap'', ''https'', ''shttp'',
     ''rtsp'', ''rtspu'', ''sip'', ''sips'', ''mms'', ''sftp'', ''tel'']"

definition split_scheme :: "string \<Rightarrow> string \<times> string" where
  "split_scheme u =
     (let s = takeWhile (\<lambda>c. c \<noteq> CHR '':'') u
      in if s \<noteq> [] \<and> length s < length u \<and> (\<forall>c \<in> set s. c \<in> set scheme_chars)
         then (lower s, drop (length s + 1) u) else ([], u))"

definition splitnetloc :: "string \<Rightarrow> string \<times> string" where
  "splitnetloc u =
     (let n = takeWhile (\<lambda>c. c \<notin> {CHR ''/'', CHR ''?'', CHR ''#''}) u
      in (n, drop (length n) u))"

definition splitparams :: "string \<Rightarrow> string" where
  "splitparams u =
     (if CHR ''/'' \<in> set u
      then (let last_seg = rev (takeWhile (\<lambda>c. c \<noteq> CHR ''/'') (rev u));
                head = take (length u - length last_seg) u
            in head @ takeWhile (\<lambda>c. c \<noteq> CHR '';'') last_seg)
      else takeWhile (\<lambda>c. c \<noteq> CHR '';'') u)"

definition urlparse :: "string \<Rightarrow> exn + parse_result" where
  "urlparse u =
     (let (sch, rest) = split_scheme u;
          (loc, rest1) = (if take 2 rest = ''//'' then splitnetloc (drop 2 rest) else ([], rest));
          p = takeWhile (\<lambda>c. c \<notin> {CHR ''#'', CHR ''?''}) rest1
      in if (CHR ''['' \<in> set loc \<and> CHR '']'' \<notin> set loc) \<or> (CHR '']'' \<in> set loc \<and> CHR ''['' \<notin> set loc)
         then Inl ValueError
         else Inr \<lparr>scheme = sch, netloc = loc,
                   url_path = (if sch \<in> set uses_params \<and> CHR '';'' \<in> set p then splitparams p else p)\<rparr>)"

text \<open>\<^verbatim>\<open>FaviconCache._get_domain\<close>, with the record it logs.\<close>

definition get_domain :: "string \<Rightarrow> (exn + string option) \<times> log_record list" where
  "get_domain u =
     (case urlparse u of
        Inl e \<Rightarrow>
          if e = ValueError \<or> e = AttributeError
          then (Inr None, [Error (''Error parsing URL '' @ u) e])
          else (Inl e, [])
      | Inr parsed \<Rightarrow>
          (Inr (Some (removeprefix ''www.''
             (if netloc parsed \<noteq> [] then netloc parsed
              else takeWhile (\<lambda>c. c \<noteq> CHR ''/'') (url_path parsed)))), []))"

text \<open>\<^verbatim>\<open>FaviconCache._sanitize_filename\<close>.\<close>

definition sanitize_filename :: "string \<Rightarrow> string" where
  "sanitize_filename domain =
     replace_char (CHR 0x5C) CHR ''_'' (replace_char CHR ''/'' CHR ''_'' (replace_char CHR '':'' CHR ''_'' domain))"

text \<open>
  What the cache works in: the file system, the URLs requested from the network so
  far, and the log. The network is a function from the requested URL to the body read
  or the exception that \<^verbatim>\<open>urlopen\<close> or \<^verbatim>\<open>read\<close> raises.
\<close>

record world =
  fs :: filesystem
  requests :: "string list"
  logs :: "log_record list"

type_synonym network = "string \<Rightarrow> exn + string"

definition favicon_url :: "string \<Rightarrow> string" where
  "favicon_url domain = ''https://www.google.com/s2/favicons?domain='' @ domain @ ''&sz=32''"

text \<open>The \<^verbatim>\<open>except (urllib.error.URLError, OSError, IOError)\<close> clause.\<close>

definition download_failed :: "string \<Rightarrow> exn \<Rightarrow> world \<Rightarrow> (exn + string option) \<times> world" where
  "download_failed domain e w =
     (if is_OSError e
      then (Inr None, w\<lparr>logs := logs w @ [Debug (''Could not download favicon for '' @ domain) e]\<rparr>)
      else (Inl e, w))"

text \<open>\<^verbatim>\<open>FaviconCache.get_favicon_path\<close>.\<close>

definition get_favicon_path ::
  "path \<Rightarrow> network \<Rightarrow> world \<Rightarrow> string \<Rightarrow> (exn + string option) \<times> world" where
  "get_favicon_path cache_dir urlopen w u =
     (case get_domain u of
        (Inl e, msgs) \<Rightarrow> (Inl e, w\<lparr>logs := logs w @ msgs\<rparr>)
      | (Inr None, msgs) \<Rightarrow> (Inr None, w\<lparr>logs := logs w @ msgs\<rparr>)
      | (Inr (Some domain), msgs) \<Rightarrow>
          (if domain = [] then (Inr None, w)
           else
             (let favicon_path = child cache_dir (sanitize_filename domain @ ''.png'')
              in if path_exists (fs w) favicon_path then (Inr (Some (as_posix favicon_path)), w)
                 else
                   (let w1 = w\<lparr>requests := requests w @ [favicon_url domain]\<rparr>
                    in (case urlopen (favicon_url domain) of
                          Inl e \<Rightarrow> download_failed domain e w1
                        | Inr favicon_data \<Rightarrow>
                            (case write_file (fs w1) favicon_path (Blob favicon_data) of
                               Inl e \<Rightarrow> download_failed domain e w1
                             | Inr fs1 \<Rightarrow>
                                 (Inr (Some (as_posix favicon_path)),
                                  w1\<lparr>fs := fs1,
                                     logs := logs w1 @ [Info (''Downloaded favicon for '' @ domain)]\<rparr>)))))))"

text \<open>\<^verbatim>\<open>FaviconCache.clear_cache\<close>: the loop over the glob, inside one try block.\<close>

fun unlink_each :: "filesystem \<Rightarrow> path list \<Rightarrow> (exn + unit) \<times> filesystem" where
  "unlink_each fs0 [] = (Inr (), fs0)"
| "unlink_each fs0 (f # files) =
     (case unlink fs0 f of
        Inl e \<Rightarrow> (Inl e, fs0)
      | Inr fs1 \<Rightarrow> unlink_each fs1 files)"

definition clear_cache :: "path \<Rightarrow> world \<Rightarrow> (exn + unit) \<times> world" where
  "clear_cache cache_dir w =
     (case unlink_each (fs w) (glob (fs w) cache_dir ''*.png'') of
        (Inr u, fs1) \<Rightarrow> (Inr (), w\<lparr>fs := fs1, logs := logs w @ [Info ''Favicon cache cleared'']\<rparr>)
      | (Inl e, fs1) \<Rightarrow>
          if is_OSError e
          then (Inr (), w\<lparr>fs := fs1, logs := logs w @ [Error ''Error clearing favicon cache'' e]\<rparr>)
          else (Inl e, w\<lparr>fs := fs1\<rparr>))"

section \<open>main.py\<close>

text \<open>A result handed to the launcher by \<^verbatim>\<open>add_item\<close>, which appends it to
  \<^verbatim>\<open>self._results\<close>.\<close>

datatype icon = ICON_HISTORY | ICON_BROWSER | IconFile string

datatype action = browser_open

record result_item =
  r_title :: string
  r_subtitle :: string
  r_icon :: "icon option"
  r_glyph :: "string option"
  r_action :: "action option"
  r_parameters :: "string list"
  r_context :: "string list"

definition HISTORY_GLYPH :: string where
  "HISTORY_GLYPH = []"

definition matches :: "string \<Rightarrow> history_item \<Rightarrow> bool" where
  "matches query_lower item =
     (contains query_lower (lower (title item)) \<or> contains query_lower (lower (url item)))"

definition make_result :: "nat \<Rightarrow> history_item \<Rightarrow> string option \<Rightarrow> result_item" where
  "make_result idx item favicon_path =
     \<lparr>r_title = title item,
      r_subtitle = str_nat idx @ ''. '' @ url item,
      r_icon = Some (case favicon_path of Some f \<Rightarrow> IconFile f | None \<Rightarrow> ICON_HISTORY),
      r_glyph = (case favicon_path of Some f \<Rightarrow> None | None \<Rightarrow> Some HISTORY_GLYPH),
      r_action = Some browser_open,
      r_parameters = [url item],
      r_context = [title item, url item]\<rparr>"

text \<open>The loop of \<^verbatim>\<open>BrowserHistory.query\<close> over \<^verbatim>\<open>enumerate(history)\<close>.\<close>

fun query_loop ::
  "path \<Rightarrow> network \<Rightarrow> string \<Rightarrow> (nat \<times> history_item) list \<Rightarrow> world \<times> result_item list
     \<Rightarrow> (exn + unit) \<times> world \<times> result_item list" where
  "query_loop cache_dir urlopen query_lower [] st = (Inr (), st)"
| "query_loop cache_dir urlopen query_lower ((idx, item) # rest) st =
     (if matches query_lower item
      then (case get_favicon_path cache_dir urlopen (fst st) (url item) of
              (Inl e, w1) \<Rightarrow> (Inl e, w1, snd st)
            | (Inr favicon_path, w1) \<Rightarrow>
                query_loop cache_dir urlopen query_lower rest
                  (w1, snd st @ [make_result idx item favicon_path]))
      else query_loop cache_dir urlopen query_lower rest st)"

text \<open>
  The plugin object: its adapter and its results. \<^verbatim>\<open>BrowserHistory.query\<close> fetches
  with the constant limit 10000 and then filters.
\<close>

record plugin =
  adapter_of :: adapter
  results :: "result_item list"

definition query ::
  "path \<Rightarrow> path \<Rightarrow> network \<Rightarrow> plugin \<times> world \<Rightarrow> string \<Rightarrow> (exn + unit) \<times> plugin \<times> world" where
  "query tmp cache_dir urlopen st text =
     (case history tmp (adapter_of (fst st), fs (snd st)) 10000 of
        (Inl e, a1, fs1) \<Rightarrow> (Inl e, (fst st)\<lparr>adapter_of := a1\<rparr>, (snd st)\<lparr>fs := fs1\<rparr>)
      | (Inr items, a1, fs1) \<Rightarrow>
          (case query_loop cache_dir urlopen (lower text) (enumerate 0 items)
                  ((snd st)\<lparr>fs := fs1\<rparr>, results (fst st)) of
             (r, w1, rs) \<Rightarrow> (r, \<lparr>adapter_of = a1, results = rs\<rparr>, w1)))"

text \<open>\<^verbatim>\<open>BrowserHistory._query\<close>.\<close>

definition not_found_item :: result_item where
  "not_found_item =
     \<lparr>r_title = ''History not found!'', r_subtitle = ''Check your logs for more information.'',
      r_icon = None, r_glyph = None, r_action = None, r_parameters = [], r_context = []\<rparr>"

definition query_guarded ::
  "path \<Rightarrow> path \<Rightarrow> network \<Rightarrow> plugin \<times> world \<Rightarrow> string
     \<Rightarrow> (exn + result_item list) \<times> plugin \<times> world" where
  "query_guarded tmp cache_dir urlopen st text =
     (case query tmp cache_dir urlopen st text of
        (Inr u, p1, w1) \<Rightarrow> (Inr (results p1), p1, w1)
      | (Inl e, p1, w1) \<Rightarrow>
          if is_FileNotFoundError e
          then (Inr (results p1 @ [not_found_item]), p1\<lparr>results := results p1 @ [not_found_item]\<rparr>, w1)
          else (Inl e, p1, w1))"

section \<open>Example data\<close>

text \<open>
  Concrete file systems, rows and networks on which the properties below are evaluated.
\<close>

definition tmp_dir :: path where
  "tmp_dir = Path True [''tmp'']"

definition history_path :: path where
  "history_path = Path True [''data'', ''History'']"

definition example_chrome :: adapter where
  "example_chrome = \<lparr>kind = Chrome, database_path = history_path, temp_path = None\<rparr>"

definition example_rows :: "row list" where
  "example_rows =
     [(''https://example.com/page'', Some [], 13300000000000000),
      (''https://www.python.org/'', Some ''Welcome to Python.org'', 13299999999000000),
      (''https://isabelle.in.tum.de/'', None, 13299999998000000)]"

definition history_fs :: "row list \<Rightarrow> filesystem" where
  "history_fs rows =
     \<lparr>entries = [(tmp_dir, Dir), (Path True [''data''], Dir),
                 (history_path, File (Sqlite [(chromium_query, rows)]))],
      locked = []\<rparr>"

definition cache_ex :: path where
  "cache_ex = Path True [''plugin'', ''favicons'']"

definition cache_fs :: "path list \<Rightarrow> filesystem" where
  "cache_fs denied =
     \<lparr>entries = [(cache_ex, Dir),
                 (child cache_ex ''a.png'', File (Blob ''A'')),
                 (child cache_ex ''notes.txt'', File (Blob ''N'')),
                 (child cache_ex ''b.png'', File (Blob ''B''))],
      locked = denied\<rparr>"

definition cache_world :: "path list \<Rightarrow> world" where
  "cache_world denied = \<lparr>fs = cache_fs denied, requests = [], logs = []\<rparr>"

definition profile_fs :: "bool \<Rightarrow> (string \<times> node) list \<Rightarrow> filesystem" where
  "profile_fs anchored children =
     \<lparr>entries = (Path anchored [''Profiles''], Dir)
                 # map (\<lambda>(n, k). (Path anchored [''Profiles'', n], k)) children,
      locked = []\<rparr>"

definition example_url :: string where
  "example_url = ''https://www.example.com:8080/page?q=1''"

definition online :: network where
  "online x = Inr ''icon''"

definition offline :: network where
  "offline x = Inl URLError"

definition example_plugin :: plugin where
  "example_plugin = \<lparr>adapter_of = example_chrome, results = []\<rparr>"

definition history_world :: world where
  "history_world = \<lparr>fs = history_fs example_rows, requests = [], logs = []\<rparr>"

section \<open>Properties of the string and file-system operations\<close>

lemma strip_empty_iff: "strip s = [] \<longleftrightarrow> list_all isspace s"
proof
  assume "strip s = []"
  then have "dropWhile isspace (rev (dropWhile isspace s)) = []"
    by (simp add: strip_def)
  then have a: "\<forall>x \<in> set (dropWhile isspace s). isspace x"
    by simp
  have "dropWhile isspace s = []"
  proof (rule ccontr)
    assume n: "dropWhile isspace s \<noteq> []"
    then have "\<not> isspace (hd (dropWhile isspace s))" by (rule hd_dropWhile)
    moreover have "hd (dropWhile isspace s) \<in> set (dropWhile isspace s)" using n by simp
    ultimately show False using a by blast
  qed
  then show "list_all isspace s"
    by (simp add: list_all_iff)
next
  assume "list_all isspace s"
  then show "strip s = []"
    by (auto simp: strip_def list_all_iff dest: set_dropWhileD)
qed

lemma contains_iff_sublist: "contains sub s \<longleftrightarrow> sublist sub s"
  by (induction s) (auto simp: sublist_Cons_right)

lemma fnmatch_literal:
  "\<forall>c \<in> set l. c \<noteq> CHR ''*'' \<and> c \<noteq> CHR ''?'' \<Longrightarrow> fnmatch l s = (s = l)"
  by (induction l s rule: fnmatch.induct) auto

lemma fnmatch_star_literal:
  "\<forall>c \<in> set l. c \<noteq> CHR ''*'' \<and> c \<noteq> CHR ''?'' \<Longrightarrow> fnmatch (CHR ''*'' # l) s = suffix l s"
proof (induction s)
  case Nil
  then show ?case by (cases l) (auto simp: fnmatch_literal)
next
  case (Cons c cs)
  then show ?case by (auto simp: fnmatch_literal suffix_Cons)
qed

lemma fnmatch_png: "fnmatch ''*.png'' s = suffix ''.png'' s"
  using fnmatch_star_literal [of "''.png''" s] by simp

section \<open>History entries\<close>

text \<open>
  C8. For every raw row, the entry built by \<^verbatim>\<open>HistoryItem.__init__\<close> has its title equal
  to the url when the source title is absent (NULL), empty or made of whitespace only,
  and equal to the source title otherwise; the url is stored unchanged.
\<close>

theorem HistoryItem_title_fallback:
  "title (HistoryItem b u t v) =
     (case t of None \<Rightarrow> u | Some s \<Rightarrow> if list_all isspace s then u else s)
   \<and> url (HistoryItem b u t v) = u"
  by (auto simp: HistoryItem_def strip_empty_iff split: option.splits)

theorem HistoryItem_title_fallback_witness:
  "title (HistoryItem (Adapter Chrome) ''https://example.com/page'' (Some '' '') 13300000000000000)
     = ''https://example.com/page''
   \<and> title (HistoryItem (Adapter Firefox) ''https://example.com/page'' (Some ''Example'') 7)
     = ''Example''"
  using HistoryItem_title_fallback [of "Adapter Chrome" "''https://example.com/page''" "Some '' ''" 13300000000000000]
    HistoryItem_title_fallback [of "Adapter Firefox" "''https://example.com/page''" "Some ''Example''" 7]
  by (simp add: isspace_def)

text \<open>
  C1. On the entry of the Chromium row
  \<^verbatim>\<open>("https://example.com/page", "", 13300000000000000)\<close>, \<^verbatim>\<open>timestamp()\<close> does not
  return a calendar time: the call of the \<^verbatim>\<open>datetime\<close> constructor with a float and
  two strings raises \<^verbatim>\<open>TypeError\<close>.
\<close>

theorem timestamp_chromium_example:
  "fst (timestamp (HistoryItem (Adapter Chrome) ''https://example.com/page'' (Some []) 13300000000000000))
     = Inl TypeError"
  by (simp add: timestamp_def HistoryItem_def)

text \<open>The same holds for every entry of a Chromium-family adapter, whatever its time.\<close>

lemma timestamp_chromium_raises:
  "isinstance_chromium (browser item) \<Longrightarrow> fst (timestamp item) = Inl TypeError"
  by (simp add: timestamp_def)

section \<open>The file system under deletion and writing\<close>

lemma lookup_write_file:
  "write_file fs0 p c = Inr fs1 \<Longrightarrow> lookup fs1 q = (if q = p then Some (File c) else lookup fs0 q)"
  by (auto simp: write_file_def lookup_def update_conv' split: if_splits)

lemma locked_write_file: "write_file fs0 p c = Inr fs1 \<Longrightarrow> locked fs1 = locked fs0"
  by (auto simp: write_file_def split: if_splits)

lemma path_exists_write_file: "write_file fs0 p c = Inr fs1 \<Longrightarrow> path_exists fs1 p"
  by (simp add: path_exists_def lookup_write_file)

lemma write_file_is_OSError: "write_file fs0 p c = Inl e \<Longrightarrow> is_OSError e"
  by (auto simp: write_file_def split: if_splits)

lemma unlink_Inr:
  "unlink fs0 p = Inr fs1 \<Longrightarrow> fs1 = fs0\<lparr>entries := AList.delete p (entries fs0)\<rparr>"
  by (auto simp: unlink_def split: option.splits node.splits if_splits)

lemma lookup_unlink:
  "unlink fs0 p = Inr fs1 \<Longrightarrow> lookup fs1 q = (if q = p then None else lookup fs0 q)"
  by (auto dest!: unlink_Inr simp: lookup_def delete_conv')

lemma keys_delete: "map fst (AList.delete p es) = filter (\<lambda>k. k \<noteq> p) (map fst es)"
  by (induction es) auto

lemma unlink_is_OSError: "unlink fs0 p = Inl e \<Longrightarrow> is_OSError e"
  by (auto simp: unlink_def split: option.splits node.splits if_splits)

lemma unlink_each_frame:
  "unlink_each fs0 ps = (r, fs1) \<Longrightarrow> q \<notin> set ps \<Longrightarrow> lookup fs1 q = lookup fs0 q"
proof (induction ps arbitrary: fs0)
  case Nil
  then show ?case by simp
next
  case (Cons p ps)
  show ?case
  proof (cases "unlink fs0 p")
    case (Inl e)
    with Cons.prems show ?thesis by simp
  next
    case (Inr fs2)
    with Cons.prems have "unlink_each fs2 ps = (r, fs1)" and "q \<notin> set ps" and "q \<noteq> p"
      by auto
    with Cons.IH [of fs2] Inr show ?thesis by (simp add: lookup_unlink)
  qed
qed

lemma unlink_each_locked: "unlink_each fs0 ps = (r, fs1) \<Longrightarrow> locked fs1 = locked fs0"
proof (induction ps arbitrary: fs0)
  case Nil
  then show ?case by simp
next
  case (Cons p ps)
  then show ?case
    by (cases "unlink fs0 p") (auto dest!: unlink_Inr)
qed

lemma unlink_each_keys:
  "unlink_each fs0 ps = (Inr u, fs1) \<Longrightarrow>
     map fst (entries fs1) = filter (\<lambda>k. k \<notin> set ps) (map fst (entries fs0))"
proof (induction ps arbitrary: fs0)
  case Nil
  then show ?case by simp
next
  case (Cons p ps)
  show ?case
  proof (cases "unlink fs0 p")
    case (Inl e)
    with Cons.prems show ?thesis by simp
  next
    case (Inr fs2)
    with Cons.prems have "unlink_each fs2 ps = (Inr u, fs1)" by simp
    from Cons.IH [OF this] unlink_Inr [OF Inr] show ?thesis
      by (auto simp: keys_delete intro: filter_cong)
  qed
qed

lemma unlink_each_append:
  "unlink_each fs0 ps = (Inr (), fs1) \<Longrightarrow> unlink_each fs0 (ps @ qs) = unlink_each fs1 qs"
proof (induction ps arbitrary: fs0)
  case Nil
  then show ?case by simp
next
  case (Cons p ps)
  then show ?case by (cases "unlink fs0 p") auto
qed

lemma unlink_each_is_OSError: "unlink_each fs0 ps = (Inl e, fs1) \<Longrightarrow> is_OSError e"
proof (induction ps arbitrary: fs0)
  case Nil
  then show ?case by simp
next
  case (Cons p ps)
  then show ?case by (cases "unlink fs0 p") (auto dest: unlink_is_OSError)
qed

lemma shutil_copy_missing:
  "lookup fs0 src = None \<Longrightarrow> shutil_copy fs0 src dst = (Inl (FileNotFoundError (as_posix src)), fs0)"
  by (simp add: shutil_copy_def path_exists_def Let_def)

section \<open>Reading the history\<close>

text \<open>
  C6. When the source database path does not exist, \<^verbatim>\<open>query_history\<close> raises
  \<^verbatim>\<open>FileNotFoundError\<close> (the error that the plugin reports as "History not found!")
  and nothing has been copied: the file system and the adapter object are as before, so no
  temporary file exists that was not there, and \<^verbatim>\<open>__del__\<close> of an adapter without
  \<^verbatim>\<open>temp_path\<close> changes nothing either.
\<close>

theorem query_history_missing:
  assumes "\<not> path_exists fs0 db_path"
  shows "query_history tmp (self, fs0) db_path query_text limit
           = (Inl (FileNotFoundError (as_posix db_path)), self, fs0)
         \<and> (temp_path self = None \<longrightarrow> adapter_del self fs0 = fs0)"
  using assms
  by (simp add: query_history_def copy_database_def shutil_copy_missing path_exists_def adapter_del_def)

theorem query_history_missing_witness:
  "\<not> path_exists (history_fs example_rows) (Path True [''data'', ''Missing''])
   \<and> query_history tmp_dir (example_chrome, history_fs example_rows) (Path True [''data'', ''Missing''])
        chromium_query 10
      = (Inl (FileNotFoundError ''/data/Missing''), example_chrome, history_fs example_rows)"
proof -
  have h: "\<not> path_exists (history_fs example_rows) (Path True [''data'', ''Missing''])"
    by (simp add: path_exists_def lookup_def history_fs_def tmp_dir_def history_path_def)
  from query_history_missing [OF h, of tmp_dir example_chrome chromium_query 10] h
  show ?thesis by (simp add: as_posix_def)
qed

lemma length_sqlite_limit: "0 \<le> n \<Longrightarrow> length (sqlite_limit n rows) \<le> nat n"
  by (simp add: sqlite_limit_def)

lemma execute_limit_length:
  "0 \<le> n \<Longrightarrow> execute_limit fs0 db q n = Inr rows \<Longrightarrow> length rows \<le> nat n"
  by (auto simp: execute_limit_def sqlite_limit_def
           split: option.splits node.splits content.splits if_splits)

lemma history_length:
  assumes "0 \<le> n" and "fst (history tmp st n) = Inr items"
  shows "length items \<le> nat n"
proof -
  obtain self fs0 where st: "st = (self, fs0)" by (cases st)
  from assms(2) obtain recents where
    "fst (query_history tmp st (database_path (fst st)) (history_query (kind (fst st))) n) = Inr recents"
    and items: "items = get_history_items (fst st) recents"
    by (auto simp: history_def split: prod.splits sum.splits)
  then obtain fs1 tp where "execute_limit fs1 tp (history_query (kind (fst st))) n = Inr recents"
    by (auto simp: query_history_def split: prod.splits sum.splits)
  with assms(1) have "length recents \<le> nat n" by (rule execute_limit_length)
  then show ?thesis by (simp add: items get_history_items_def)
qed

lemma history_example:
  "fst (history tmp_dir (example_chrome, history_fs example_rows) 2)
     = Inr (get_history_items example_chrome (take 2 example_rows))"
  by (simp add: history_def query_history_def copy_database_def shutil_copy_def execute_limit_def
        sqlite_limit_def write_file_def update_conv'
        example_chrome_def history_fs_def tmp_dir_def history_path_def basename_def
        child_def joinpath_def parent_def lookup_def is_dir_def path_exists_def Let_def)

text \<open>
  C2, as the code has it. For every adapter and every requested limit \<open>n \<ge> 0\<close>,
  \<^verbatim>\<open>history(n)\<close> returns at most \<open>n\<close> entries. The adapter has no cap of its own.
\<close>

theorem history_at_most_limit:
  assumes "0 \<le> n" and "fst (history tmp st n) = Inr items"
  shows "length items \<le> nat n"
  using assms by (rule history_length)

theorem history_at_most_limit_witness:
  "(0::int) \<le> 2
   \<and> fst (history tmp_dir (example_chrome, history_fs example_rows) 2)
       = Inr (get_history_items example_chrome (take 2 example_rows))
   \<and> length (get_history_items example_chrome (take 2 example_rows)) \<le> nat 2"
proof -
  have n: "(0::int) \<le> 2" by simp
  from history_at_most_limit [OF n history_example] history_example n
  show ?thesis by simp
qed

text \<open>
  C2 as stated fails: asked for 10001 entries of a history of 10001 rows, the Chrome
  adapter returns 10001 entries, more than the cap of 10,000.
\<close>

theorem history_cap_counterexample:
  "map_sum id length
     (fst (history tmp_dir (example_chrome, history_fs (replicate 10001 (''u'', None, 0))) 10001))
   = Inr 10001"
  by (simp add: history_def query_history_def copy_database_def shutil_copy_def execute_limit_def
        sqlite_limit_def get_history_items_def write_file_def update_conv'
        example_chrome_def history_fs_def tmp_dir_def history_path_def basename_def
        child_def joinpath_def parent_def lookup_def is_dir_def path_exists_def Let_def)

text \<open>
  A negative limit lifts SQLite's bound: \<^verbatim>\<open>history(-1)\<close> returns all three rows.
\<close>

lemma history_negative_limit_example:
  "map_sum id length (fst (history tmp_dir (example_chrome, history_fs example_rows) (- 1))) = Inr 3"
  by (simp add: history_def query_history_def copy_database_def shutil_copy_def execute_limit_def
        sqlite_limit_def get_history_items_def write_file_def update_conv'
        example_chrome_def history_fs_def tmp_dir_def history_path_def basename_def example_rows_def
        child_def joinpath_def parent_def lookup_def is_dir_def path_exists_def Let_def)

section \<open>Locating the Gecko profile\<close>

lemma glob_member:
  "p \<in> set (glob fs0 base pat) \<Longrightarrow>
     p = child base (last (parts p)) \<and> fnmatch pat (last (parts p))"
  by (cases p) (auto simp: glob_def child_def joinpath_def parent_def split: if_splits)

lemma glob_hd:
  "glob fs0 base pat \<noteq> [] \<Longrightarrow>
     hd (glob fs0 base pat) = child base (last (parts (hd (glob fs0 base pat))))
     \<and> fnmatch pat (last (parts (hd (glob fs0 base pat))))"
  using glob_member [of "hd (glob fs0 base pat)" fs0 base pat] by simp

lemma join_absolute_child:
  "absolute base \<Longrightarrow>
     joinpath (joinpath base (child base n)) (Path False [m]) = Path True (parts base @ [n, m])"
  by (simp add: joinpath_def child_def)

lemma find_database_loop_absolute:
  "absolute base \<Longrightarrow>
   find_database_loop fs0 base pats =
     (case filter (\<lambda>pat. glob fs0 base pat \<noteq> []) pats of
        [] \<Rightarrow> Inl (FileNotFoundError (''No Firefox/Zen profile found in '' @ as_posix base))
      | pat # rest \<Rightarrow>
          Inr (Path True (parts base @ [last (parts (hd (glob fs0 base pat))), ''places.sqlite''])))"
proof (induction pats)
  case Nil
  then show ?case by simp
next
  case (Cons pat pats)
  show ?case
  proof (cases "glob fs0 base pat")
    case Nil
    with Cons show ?thesis by simp
  next
    case (Cons p ps)
    then have ne: "glob fs0 base pat \<noteq> []" by simp
    from glob_hd [OF ne] Cons have "p = child base (last (parts p))" by simp
    then have "joinpath (joinpath base p) (Path False [''places.sqlite''])
                 = Path True (parts base @ [last (parts p), ''places.sqlite''])"
      using join_absolute_child [OF \<open>absolute base\<close>, of "last (parts p)" "''places.sqlite''"]
      by simp
    with Cons show ?thesis by simp
  qed
qed

lemmas glob_eval = profile_fs_def glob_def is_dir_def lookup_def parent_def patterns_def
  find_database_def joinpath_def as_posix_def

text \<open>
  C5, as the code has it. For every absolute profile root, \<^verbatim>\<open>find_database\<close> takes
  the first pattern, in priority order, that matches some entry of the root, and returns
  \<open>root/name/places.sqlite\<close> for the first entry \<open>name\<close> matching it (the code does
  not test whether the entry is a directory); when no pattern matches any entry it raises
  \<^verbatim>\<open>FileNotFoundError\<close> with the root in its message.
\<close>

theorem find_database_absolute:
  assumes "absolute base"
  shows "find_database fs0 base =
     (case filter (\<lambda>pat. glob fs0 base pat \<noteq> []) patterns of
        [] \<Rightarrow> Inl (FileNotFoundError (''No Firefox/Zen profile found in '' @ as_posix base))
      | pat # rest \<Rightarrow>
          Inr (Path True (parts base @ [last (parts (hd (glob fs0 base pat))), ''places.sqlite''])))"
  using assms by (simp add: find_database_def find_database_loop_absolute)

text \<open>
  A root that holds only \<open>foo.default-release\<close> resolves to
  \<open>root/foo.default-release/places.sqlite\<close>; a root without a profile gives the error.
\<close>

theorem find_database_absolute_witness:
  "absolute (Path True [''Profiles''])
   \<and> find_database (profile_fs True [(''foo.default-release'', Dir)]) (Path True [''Profiles''])
       = Inr (Path True [''Profiles'', ''foo.default-release'', ''places.sqlite''])
   \<and> find_database (profile_fs True [(''Crash Reports'', Dir)]) (Path True [''Profiles''])
       = Inl (FileNotFoundError ''No Firefox/Zen profile found in /Profiles'')"
proof -
  have a: "absolute (Path True [''Profiles''])" by simp
  from find_database_absolute [OF a, of "profile_fs True [(''foo.default-release'', Dir)]"]
    find_database_absolute [OF a, of "profile_fs True [(''Crash Reports'', Dir)]"]
  show ?thesis
    by (simp add: profile_fs_def glob_def is_dir_def lookup_def parent_def patterns_def as_posix_def)
qed

text \<open>
  C5 as stated fails: a regular file whose name matches is taken although it is not a
  subdirectory, here before the profile directory \<open>foo.default-release\<close>.
\<close>

theorem find_database_file_counterexample:
  "find_database
     (profile_fs True [(''old.default-release'', File (Blob [])), (''foo.default-release'', Dir)])
     (Path True [''Profiles''])
   = Inr (Path True [''Profiles'', ''old.default-release'', ''places.sqlite''])"
  by (simp add: glob_eval)

text \<open>
  For a relative root the glob result already starts with the root, and joining it to
  the root again repeats the root.
\<close>

lemma find_database_relative_example:
  "find_database (profile_fs False [(''foo.default-release'', Dir)]) (Path False [''Profiles''])
   = Inr (Path False [''Profiles'', ''Profiles'', ''foo.default-release'', ''places.sqlite''])"
  by (simp add: glob_eval)

section \<open>The favicon cache\<close>

lemmas ex_defs = cache_ex_def cache_fs_def cache_world_def child_def joinpath_def parent_def
  lookup_def is_dir_def path_exists_def glob_def unlink_def Let_def

lemma urlparse_error: "urlparse u = Inl e \<Longrightarrow> e = ValueError"
  by (auto simp: urlparse_def Let_def split: prod.splits if_splits)

lemma get_domain_no_raise: "\<exists>d msgs. get_domain u = (Inr d, msgs)"
  by (cases "urlparse u") (auto simp: get_domain_def dest: urlparse_error)

lemma get_favicon_path_success:
  assumes "get_favicon_path cache_dir urlopen w u = (Inr (Some p), w1)"
  obtains domain msgs where "get_domain u = (Inr (Some domain), msgs)" and "domain \<noteq> []"
    and "p = as_posix (child cache_dir (sanitize_filename domain @ ''.png''))"
    and "path_exists (fs w1) (child cache_dir (sanitize_filename domain @ ''.png''))"
  using assms
  by (auto simp: get_favicon_path_def download_failed_def Let_def path_exists_write_file
           split: prod.splits sum.splits option.splits if_splits)

lemma get_favicon_path_no_raise:
  assumes "\<forall>x e. urlopen x = Inl e \<longrightarrow> is_OSError e"
  shows "\<exists>r w1. get_favicon_path cache_dir urlopen w u = (Inr r, w1)"
proof -
  obtain d msgs where g: "get_domain u = (Inr d, msgs)" using get_domain_no_raise by blast
  show ?thesis
  proof (cases d)
    case None
    with g show ?thesis by (simp add: get_favicon_path_def)
  next
    case (Some domain)
    with g assms show ?thesis
      by (auto simp: get_favicon_path_def download_failed_def Let_def
               split: sum.splits dest: write_file_is_OSError)
  qed
qed

lemma get_domain_example: "get_domain example_url = (Inr (Some ''example.com:8080''), [])"
  by (simp add: example_url_def get_domain_def urlparse_def split_scheme_def splitnetloc_def
        scheme_chars_def uses_params_def lower_def lower_char_def removeprefix_def Let_def)

lemma get_domain_empty: "get_domain [] = (Inr (Some []), [])"
  by (simp add: get_domain_def urlparse_def split_scheme_def uses_params_def removeprefix_def Let_def lower_def)

lemma urlparse_bracket: "urlparse ''http://[::1/x'' = Inl ValueError"
  by (simp add: urlparse_def split_scheme_def splitnetloc_def scheme_chars_def lower_def
        lower_char_def Let_def)

lemma first_download:
  "fst (get_favicon_path cache_ex online (cache_world []) example_url)
     = Inr (Some ''/plugin/favicons/example.com_8080.png'')"
  by (simp add: get_favicon_path_def get_domain_example sanitize_filename_def replace_char_def
        online_def write_file_def as_posix_def ex_defs)

lemma glob_cache_ex:
  "glob (cache_fs d) cache_ex ''*.png'' = [child cache_ex ''a.png'', child cache_ex ''b.png'']"
  by (simp add: ex_defs)

lemma fs_clear_cache:
  "fs (snd (clear_cache cache_dir w)) = snd (unlink_each (fs w) (glob (fs w) cache_dir ''*.png''))"
  by (auto simp: clear_cache_def split: prod.splits sum.splits)

lemma unlink_each_example:
  "unlink_each (fs (cache_world [])) (glob (fs (cache_world [])) cache_ex ''*.png'')
     = (Inr (), \<lparr>entries = [(cache_ex, Dir), (child cache_ex ''notes.txt'', File (Blob ''N''))],
                 locked = []\<rparr>)"
  by (simp add: ex_defs)

text \<open>
  C7. When a call of \<^verbatim>\<open>get_favicon_path\<close> returns a path, a second call with the
  same URL returns the same path and leaves the world as it is: no request is added, no
  file is written, whatever the network would answer.
\<close>

theorem get_favicon_path_idempotent:
  assumes "get_favicon_path cache_dir urlopen w u = (Inr (Some p), w1)"
  shows "get_favicon_path cache_dir urlopen2 w1 u = (Inr (Some p), w1)"
proof -
  from assms obtain domain msgs where "get_domain u = (Inr (Some domain), msgs)" and "domain \<noteq> []"
    and "p = as_posix (child cache_dir (sanitize_filename domain @ ''.png''))"
    and "path_exists (fs w1) (child cache_dir (sanitize_filename domain @ ''.png''))"
    by (rule get_favicon_path_success)
  then show ?thesis by (simp add: get_favicon_path_def Let_def)
qed

theorem get_favicon_path_idempotent_witness:
  "fst (get_favicon_path cache_ex online (cache_world []) example_url)
     = Inr (Some ''/plugin/favicons/example.com_8080.png'')
   \<and> get_favicon_path cache_ex offline
        (snd (get_favicon_path cache_ex online (cache_world []) example_url)) example_url
     = (Inr (Some ''/plugin/favicons/example.com_8080.png''),
        snd (get_favicon_path cache_ex online (cache_world []) example_url))"
proof -
  have h: "get_favicon_path cache_ex online (cache_world []) example_url
     = (Inr (Some ''/plugin/favicons/example.com_8080.png''),
        snd (get_favicon_path cache_ex online (cache_world []) example_url))"
    using first_download by (simp add: prod_eq_iff)
  from get_favicon_path_idempotent [OF h, of offline] first_download show ?thesis by simp
qed

text \<open>
  C9. For a URL that \<^verbatim>\<open>urlparse\<close> rejects, or from which no domain comes out
  (the empty string is one), \<^verbatim>\<open>get_favicon_path\<close> returns \<^verbatim>\<open>None\<close> without
  raising, requests nothing from the network and leaves the file system as it is.
\<close>

theorem get_favicon_path_unparsable:
  assumes "urlparse u = Inl ValueError \<or> fst (get_domain u) = Inr (Some [])"
  shows "fst (get_favicon_path cache_dir urlopen w u) = Inr None
         \<and> fs (snd (get_favicon_path cache_dir urlopen w u)) = fs w
         \<and> requests (snd (get_favicon_path cache_dir urlopen w u)) = requests w"
  using assms
  by (auto simp: get_favicon_path_def get_domain_def split: prod.splits sum.splits option.splits)

theorem get_favicon_path_unparsable_witness:
  "urlparse ''http://[::1/x'' = Inl ValueError
   \<and> fst (get_favicon_path cache_ex online (cache_world []) ''http://[::1/x'') = Inr None
   \<and> fst (get_domain []) = Inr (Some [])
   \<and> fst (get_favicon_path cache_ex online (cache_world []) []) = Inr None
   \<and> fs (snd (get_favicon_path cache_ex online (cache_world []) [])) = cache_fs []
   \<and> requests (snd (get_favicon_path cache_ex online (cache_world []) [])) = []"
proof -
  have a: "urlparse ''http://[::1/x'' = Inl ValueError \<or> fst (get_domain ''http://[::1/x'') = Inr (Some [])"
    by (simp add: urlparse_bracket)
  have b: "urlparse [] = Inl ValueError \<or> fst (get_domain []) = Inr (Some [])"
    by (simp add: get_domain_empty)
  from get_favicon_path_unparsable [OF a, of cache_ex online "cache_world []"]
    get_favicon_path_unparsable [OF b, of cache_ex online "cache_world []"]
  show ?thesis by (simp add: urlparse_bracket get_domain_empty cache_world_def)
qed

text \<open>
  C10. \<^verbatim>\<open>clear_cache\<close> leaves every path unchanged that is not a child of the cache
  directory with a name ending in \<open>.png\<close>: files of another extension in the cache
  directory and everything outside it keep their content.
\<close>

theorem clear_cache_frame:
  assumes "parent q \<noteq> cache_dir \<or> parts q = [] \<or> \<not> suffix ''.png'' (last (parts q))"
  shows "lookup (fs (snd (clear_cache cache_dir w))) q = lookup (fs w) q
         \<and> locked (fs (snd (clear_cache cache_dir w))) = locked (fs w)"
proof -
  obtain r fs1 where u: "unlink_each (fs w) (glob (fs w) cache_dir ''*.png'') = (r, fs1)"
    by (cases "unlink_each (fs w) (glob (fs w) cache_dir ''*.png'')") blast
  have "q \<notin> set (glob (fs w) cache_dir ''*.png'')"
    using assms by (auto simp: glob_def fnmatch_png)
  with u have "lookup fs1 q = lookup (fs w) q" by (rule unlink_each_frame)
  moreover from u have "locked fs1 = locked (fs w)" by (rule unlink_each_locked)
  ultimately show ?thesis by (simp add: fs_clear_cache u)
qed

theorem clear_cache_frame_witness:
  "\<not> suffix ''.png'' (last (parts (child cache_ex ''notes.txt'')))
   \<and> lookup (fs (snd (clear_cache cache_ex (cache_world [])))) (child cache_ex ''notes.txt'')
       = Some (File (Blob ''N''))
   \<and> lookup (fs (snd (clear_cache cache_ex (cache_world [])))) (child cache_ex ''a.png'') = None"
proof -
  have h: "parent (child cache_ex ''notes.txt'') \<noteq> cache_ex \<or> parts (child cache_ex ''notes.txt'') = []
           \<or> \<not> suffix ''.png'' (last (parts (child cache_ex ''notes.txt'')))"
    by (simp add: child_def joinpath_def cache_ex_def suffix_to_prefix)
  have g: "lookup (fs (snd (clear_cache cache_ex (cache_world [])))) (child cache_ex ''a.png'') = None"
    by (simp add: clear_cache_def ex_defs)
  from clear_cache_frame [OF h, of "cache_world []"] g show ?thesis
    by (simp add: ex_defs suffix_to_prefix)
qed

text \<open>
  C4, as the code has it. \<^verbatim>\<open>clear_cache\<close> never raises. When no deletion fails, no
  \<open>*.png\<close> entry is left in the cache directory. When the deletion of a file fails, the
  error is caught after the loop has been left: the files deleted before stay deleted, and
  the failing file and all files after it stay.
\<close>

theorem clear_cache_spec:
  "fst (clear_cache cache_dir w) = Inr ()
   \<and> (fst (unlink_each (fs w) (glob (fs w) cache_dir ''*.png'')) = Inr ()
        \<longrightarrow> glob (fs (snd (clear_cache cache_dir w))) cache_dir ''*.png'' = [])
   \<and> (\<forall>ps f rest fs1 e.
         glob (fs w) cache_dir ''*.png'' = ps @ f # rest
         \<and> unlink_each (fs w) ps = (Inr (), fs1) \<and> unlink fs1 f = Inl e
        \<longrightarrow> fs (snd (clear_cache cache_dir w)) = fs1
            \<and> (\<forall>q. q \<notin> set ps \<longrightarrow> lookup fs1 q = lookup (fs w) q))"
proof (intro conjI allI impI)
  show "fst (clear_cache cache_dir w) = Inr ()"
    by (auto simp: clear_cache_def split: prod.splits sum.splits dest: unlink_each_is_OSError)
next
  assume a: "fst (unlink_each (fs w) (glob (fs w) cache_dir ''*.png'')) = Inr ()"
  obtain fs1 where u: "unlink_each (fs w) (glob (fs w) cache_dir ''*.png'') = (Inr (), fs1)"
    using a by (cases "unlink_each (fs w) (glob (fs w) cache_dir ''*.png'')") auto
  have k: "map fst (entries fs1) =
      filter (\<lambda>k. k \<notin> set (glob (fs w) cache_dir ''*.png'')) (map fst (entries (fs w)))"
    using u by (rule unlink_each_keys)
  have "glob fs1 cache_dir ''*.png'' = []"
  proof (cases "is_dir (fs w) cache_dir")
    case True
    then show ?thesis
      by (auto simp: glob_def k filter_empty_conv)
  next
    case False
    then have "glob (fs w) cache_dir ''*.png'' = []" by (simp add: glob_def)
    with u have "fs1 = fs w" by simp
    with False show ?thesis by (simp add: glob_def)
  qed
  then show "glob (fs (snd (clear_cache cache_dir w))) cache_dir ''*.png'' = []"
    by (simp add: fs_clear_cache u)
next
  fix ps f rest fs1 e
  assume h: "glob (fs w) cache_dir ''*.png'' = ps @ f # rest
         \<and> unlink_each (fs w) ps = (Inr (), fs1) \<and> unlink fs1 f = Inl e"
  then have "unlink_each (fs w) (ps @ f # rest) = unlink_each fs1 (f # rest)"
    by (simp add: unlink_each_append)
  with h show "fs (snd (clear_cache cache_dir w)) = fs1"
    by (simp add: fs_clear_cache)
next
  fix ps f rest fs1 e q
  assume h: "glob (fs w) cache_dir ''*.png'' = ps @ f # rest
         \<and> unlink_each (fs w) ps = (Inr (), fs1) \<and> unlink fs1 f = Inl e"
    and "q \<notin> set ps"
  then show "lookup fs1 q = lookup (fs w) q"
    by (auto dest: unlink_each_frame)
qed

theorem clear_cache_spec_witness:
  "fst (unlink_each (fs (cache_world [])) (glob (fs (cache_world [])) cache_ex ''*.png'')) = Inr ()
   \<and> glob (fs (snd (clear_cache cache_ex (cache_world [])))) cache_ex ''*.png'' = []
   \<and> unlink (cache_fs [child cache_ex ''a.png'']) (child cache_ex ''a.png'') = Inl PermissionError
   \<and> fst (clear_cache cache_ex (cache_world [child cache_ex ''a.png''])) = Inr ()
   \<and> fs (snd (clear_cache cache_ex (cache_world [child cache_ex ''a.png''])))
       = cache_fs [child cache_ex ''a.png'']"
proof -
  let ?a = "child cache_ex ''a.png''" and ?b = "child cache_ex ''b.png''"
  have u: "fst (unlink_each (fs (cache_world [])) (glob (fs (cache_world [])) cache_ex ''*.png'')) = Inr ()"
    by (simp add: unlink_each_example)
  have g: "glob (fs (cache_world [?a])) cache_ex ''*.png'' = [] @ ?a # [?b]"
    by (simp add: cache_world_def glob_cache_ex)
  have e: "unlink_each (fs (cache_world [?a])) [] = (Inr (), cache_fs [?a])"
    by (simp add: cache_world_def)
  have f: "unlink (cache_fs [?a]) ?a = Inl PermissionError"
    by (simp add: ex_defs)
  from clear_cache_spec [of cache_ex "cache_world []"] u
  have 1: "glob (fs (snd (clear_cache cache_ex (cache_world [])))) cache_ex ''*.png'' = []"
    by blast
  from clear_cache_spec [of cache_ex "cache_world [?a]"] g e f
  have 2: "fst (clear_cache cache_ex (cache_world [?a])) = Inr ()
           \<and> fs (snd (clear_cache cache_ex (cache_world [?a]))) = cache_fs [?a]"
    by blast
  from u 1 f 2 show ?thesis by simp
qed

text \<open>
  C4 as stated fails: with \<open>a.png\<close> locked, the deletion of \<open>a.png\<close> fails and
  \<open>b.png\<close>, which could be deleted, is still there after \<^verbatim>\<open>clear_cache\<close>.
\<close>

theorem clear_cache_abort_counterexample:
  "\<not> isl (unlink (cache_fs [child cache_ex ''a.png'']) (child cache_ex ''b.png''))
   \<and> path_exists (fs (snd (clear_cache cache_ex (cache_world [child cache_ex ''a.png''])))) (child cache_ex ''b.png'')"
  by (simp add: clear_cache_def ex_defs)

section \<open>Searching\<close>

lemma query_loop_spec:
  assumes "\<forall>x e. urlopen x = Inl e \<longrightarrow> is_OSError e"
  shows "\<exists>w1 new. query_loop cache_dir urlopen q xs (w, rs) = (Inr (), w1, rs @ new)
           \<and> map r_context new = map (\<lambda>it. [title it, url it]) (filter (matches q) (map snd xs))"
proof (induction xs arbitrary: w rs)
  case Nil
  then show ?case by simp
next
  case (Cons x xs)
  obtain idx item where x: "x = (idx, item)" by (cases x)
  show ?case
  proof (cases "matches q item")
    case False
    with Cons.IH [of w rs] x show ?thesis by simp
  next
    case True
    obtain r w2 where f: "get_favicon_path cache_dir urlopen w (url item) = (Inr r, w2)"
      using get_favicon_path_no_raise [OF assms] by blast
    from Cons.IH [of w2 "rs @ [make_result idx item r]"]
    obtain w1 new where
      "query_loop cache_dir urlopen q xs (w2, rs @ [make_result idx item r])
         = (Inr (), w1, (rs @ [make_result idx item r]) @ new)"
      and "map r_context new = map (\<lambda>it. [title it, url it]) (filter (matches q) (map snd xs))"
      by blast
    with True x f have
      "query_loop cache_dir urlopen q (x # xs) (w, rs)
         = (Inr (), w1, rs @ (make_result idx item r # new))
       \<and> map r_context (make_result idx item r # new)
         = map (\<lambda>it. [title it, url it]) (filter (matches q) (map snd (x # xs)))"
      by (simp add: make_result_def)
    then show ?thesis by blast
  qed
qed

lemma query_loop_partial:
  "query_loop cache_dir urlopen q xs (w, rs) = (Inr (), w1, rs1) \<Longrightarrow>
     \<exists>new. rs1 = rs @ new
       \<and> map r_context new = map (\<lambda>it. [title it, url it]) (filter (matches q) (map snd xs))"
proof (induction xs arbitrary: w rs)
  case Nil
  then show ?case by simp
next
  case (Cons x xs)
  obtain idx item where x: "x = (idx, item)" by (cases x)
  show ?case
  proof (cases "matches q item")
    case False
    with Cons.prems x have "query_loop cache_dir urlopen q xs (w, rs) = (Inr (), w1, rs1)"
      by simp
    from Cons.IH [OF this] False x show ?thesis by simp
  next
    case True
    with Cons.prems x obtain r w2 where
      "get_favicon_path cache_dir urlopen w (url item) = (Inr r, w2)"
      and "query_loop cache_dir urlopen q xs (w2, rs @ [make_result idx item r]) = (Inr (), w1, rs1)"
      by (auto split: prod.splits sum.splits)
    from Cons.IH [OF this(2)] obtain new where
      "rs1 = (rs @ [make_result idx item r]) @ new"
      and "map r_context new = map (\<lambda>it. [title it, url it]) (filter (matches q) (map snd xs))"
      by blast
    with True x have
      "rs1 = rs @ (make_result idx item r # new)
       \<and> map r_context (make_result idx item r # new)
         = map (\<lambda>it. [title it, url it]) (filter (matches q) (map snd (x # xs)))"
      by (simp add: make_result_def)
    then show ?thesis by blast
  qed
qed

lemma matches_iff:
  "matches q item \<longleftrightarrow> sublist q (lower (title item)) \<or> sublist q (lower (url item))"
  by (simp add: matches_def contains_iff_sublist)

lemma history_example_all:
  "fst (history tmp_dir (adapter_of example_plugin, fs history_world) 10000)
     = Inr (get_history_items example_chrome example_rows)"
  by (simp add: history_def query_history_def copy_database_def shutil_copy_def execute_limit_def
        sqlite_limit_def write_file_def update_conv' example_plugin_def history_world_def
        example_chrome_def history_fs_def tmp_dir_def history_path_def basename_def example_rows_def
        child_def joinpath_def parent_def lookup_def is_dir_def path_exists_def Let_def)

text \<open>
  C3. Let the fetch of the history with the limit 10000 succeed. Whenever \<^verbatim>\<open>query\<close>
  returns, the results it has added are exactly the fetched entries whose lower-cased title
  or url contains the lower-cased text, in the order of the fetch, and at most 10000 of
  them (the limit of the fetch). It does return when the network raises nothing but what
  \<^verbatim>\<open>get_favicon_path\<close> catches.
\<close>

theorem query_returns_matches:
  assumes "fst (history tmp (adapter_of p, fs w) 10000) = Inr items"
  shows "(\<forall>p1 w1. query tmp cache_dir urlopen (p, w) text = (Inr (), p1, w1) \<longrightarrow>
            (\<exists>new. results p1 = results p @ new
               \<and> map r_context new =
                   map (\<lambda>it. [title it, url it])
                     (filter (\<lambda>it. sublist (lower text) (lower (title it))
                                   \<or> sublist (lower text) (lower (url it))) items)
               \<and> length new \<le> 10000))
         \<and> ((\<forall>x e. urlopen x = Inl e \<longrightarrow> is_OSError e) \<longrightarrow>
              (\<exists>p1 w1. query tmp cache_dir urlopen (p, w) text = (Inr (), p1, w1)))"
proof (intro conjI allI impI)
  obtain a1 fs1 where h: "history tmp (adapter_of p, fs w) 10000 = (Inr items, a1, fs1)"
    using assms by (cases "history tmp (adapter_of p, fs w) 10000") auto
  have len: "length items \<le> 10000"
    using history_length [of 10000 tmp "(adapter_of p, fs w)" items] assms by simp
  {
    fix p1 w1
    assume q: "query tmp cache_dir urlopen (p, w) text = (Inr (), p1, w1)"
    then obtain rs1 where
      l: "query_loop cache_dir urlopen (lower text) (enumerate 0 items) (w\<lparr>fs := fs1\<rparr>, results p)
            = (Inr (), w1, rs1)"
      and p1: "p1 = \<lparr>adapter_of = a1, results = rs1\<rparr>"
      by (auto simp: query_def h split: prod.splits)
    from query_loop_partial [OF l] obtain new where
      r: "rs1 = results p @ new"
      and m: "map r_context new
          = map (\<lambda>it. [title it, url it]) (filter (matches (lower text)) (map snd (enumerate 0 items)))"
      by blast
    have m': "map r_context new =
               map (\<lambda>it. [title it, url it])
                 (filter (\<lambda>it. sublist (lower text) (lower (title it))
                               \<or> sublist (lower text) (lower (url it))) items)"
      using m by (simp add: matches_iff [abs_def])
    have "length new = length (map r_context new)" by simp
    also have "\<dots> \<le> length items" unfolding m' by simp
    finally have "length new \<le> 10000" using len by simp
    with r m' p1 show "\<exists>new. results p1 = results p @ new
               \<and> map r_context new =
                   map (\<lambda>it. [title it, url it])
                     (filter (\<lambda>it. sublist (lower text) (lower (title it))
                                   \<or> sublist (lower text) (lower (url it))) items)
               \<and> length new \<le> 10000"
      by auto
  }
  {
    assume n: "\<forall>x e. urlopen x = Inl e \<longrightarrow> is_OSError e"
    from query_loop_spec [OF n, of cache_dir "lower text" "enumerate 0 items" "w\<lparr>fs := fs1\<rparr>" "results p"]
    obtain w1 new where
      "query_loop cache_dir urlopen (lower text) (enumerate 0 items) (w\<lparr>fs := fs1\<rparr>, results p)
          = (Inr (), w1, results p @ new)"
      by blast
    then have "query tmp cache_dir urlopen (p, w) text
        = (Inr (), \<lparr>adapter_of = a1, results = results p @ new\<rparr>, w1)"
      by (simp add: query_def h)
    then show "\<exists>p1 w1. query tmp cache_dir urlopen (p, w) text = (Inr (), p1, w1)"
      by blast
  }
qed

theorem query_returns_matches_witness:
  "fst (history tmp_dir (adapter_of example_plugin, fs history_world) 10000)
     = Inr (get_history_items example_chrome example_rows)
   \<and> (\<exists>p1 w1. query tmp_dir cache_ex offline (example_plugin, history_world) ''PYTHON'' = (Inr (), p1, w1)
        \<and> map r_context (results p1) = [[''Welcome to Python.org'', ''https://www.python.org/'']])"
proof -
  have n: "\<forall>x e. offline x = Inl e \<longrightarrow> is_OSError e"
    by (auto simp: offline_def)
  have f: "filter (\<lambda>it. sublist (lower ''PYTHON'') (lower (title it))
                               \<or> sublist (lower ''PYTHON'') (lower (url it)))
             (get_history_items example_chrome example_rows)
           = [HistoryItem (Adapter Chrome) ''https://www.python.org/'' (Some ''Welcome to Python.org'') 13299999999000000]"
    by code_simp
  from query_returns_matches [OF history_example_all, of cache_ex offline "''PYTHON''"] n
  obtain p1 w1 where q: "query tmp_dir cache_ex offline (example_plugin, history_world) ''PYTHON'' = (Inr (), p1, w1)"
    and "\<exists>new. results p1 = results example_plugin @ new
           \<and> map r_context new =
               map (\<lambda>it. [title it, url it])
                 (filter (\<lambda>it. sublist (lower ''PYTHON'') (lower (title it))
                               \<or> sublist (lower ''PYTHON'') (lower (url it)))
                    (get_history_items example_chrome example_rows))
           \<and> length new \<le> 10000"
    by blast
  then have "map r_context (results p1) = [[''Welcome to Python.org'', ''https://www.python.org/'']]"
    by (auto simp: f example_plugin_def HistoryItem_def strip_empty_iff isspace_def)
  with q history_example_all show ?thesis by (intro conjI exI) assumption+
qed

end
